theory Spec2Isabelle
  imports Complex_Main
begin

section \<open>Data model (types.ts)\<close>

text \<open>
  JavaScript numbers are modelled in two ways: the landed counts, which the program only
  ever increments by one or obtains as array lengths, are natural numbers; coordinates,
  progress, the estimate and the relative error are real numbers, so \<open>Math.sqrt\<close>,
  \<open>Math.cos\<close>, \<open>Math.sin\<close> and \<open>Math.PI\<close> are the real functions and the real constant.
  The rounding of IEEE doubles is not part of the model.
\<close>

datatype status = Falling | Landed

record ball =
  ball_id :: string
  x :: real
  y :: real
  targetX :: real
  targetY :: real
  progress :: real
  color :: string
  inSquare :: bool
  status :: status

record SimulationStats =
  totalInCircle :: nat
  totalInSquare :: nat
  estimatedPi :: real
  error :: real

record HistoryPoint =
  index :: nat
  value_pt :: real

section \<open>The App component: geometry and the sampler\<close>

record canvas =
  width :: real
  height :: real

definition canvasSize :: canvas where
  "canvasSize = \<lparr>width = 600, height = 600\<rparr>"

definition centerX :: "canvas \<Rightarrow> real" where
  "centerX cs = width cs / 2"

definition centerY :: "canvas \<Rightarrow> real" where
  "centerY cs = height cs / 2"

definition radius :: "canvas \<Rightarrow> real" where
  "radius cs = width cs * 0.4"

definition squareSize :: "canvas \<Rightarrow> real" where
  "squareSize cs = radius cs * sqrt 2"

text \<open>
  One call of \<open>generateBall\<close> reads \<open>Math.random()\<close> three times: for the radial
  fraction, for the angle and for the identifier (already rendered in base 36 and cut).
  A \<open>draw\<close> holds the three results in call order.
\<close>

record draw =
  rand_radial :: real
  rand_angle :: real
  rand_id :: string

definition generateBall :: "canvas \<Rightarrow> draw \<Rightarrow> ball" where
  "generateBall cs d =
     (let r = radius cs * sqrt (rand_radial d);
          theta = rand_angle d * 2 * pi;
          tX = centerX cs + r * cos theta;
          tY = centerY cs + r * sin theta;
          inSq = (tX \<ge> centerX cs - squareSize cs / 2 \<and>
                  tX \<le> centerX cs + squareSize cs / 2 \<and>
                  tY \<ge> centerY cs - squareSize cs / 2 \<and>
                  tY \<le> centerY cs + squareSize cs / 2)
      in \<lparr>ball_id = rand_id d, x = tX, y = - 20, targetX = tX, targetY = tY,
          progress = 0, color = (if inSq then ''#f472b6'' else ''#38bdf8''),
          inSquare = inSq, status = Falling\<rparr>)"

section \<open>Application state\<close>

text \<open>
  The three \<open>useState\<close> cells shared by both App components. The first component (the
  one driven by \<open>setInterval\<close>, with the incremental \<open>updateStats\<close>) has a fourth cell,
  \<open>isSimulationRunning\<close>. Names ending in 1 belong to the first component, names ending
  in 2 to the second (driven by \<open>requestAnimationFrame\<close>, with the statistics effect).
\<close>

record app_state =
  balls :: "ball list"
  stats :: SimulationStats
  history :: "HistoryPoint list"

record app_state1 = app_state +
  isSimulationRunning :: bool

definition zeroStats :: SimulationStats where
  "zeroStats = \<lparr>totalInCircle = 0, totalInSquare = 0, estimatedPi = 0, error = 0\<rparr>"

definition init1 :: app_state1 where
  "init1 = \<lparr>balls = [], stats = zeroStats, history = [], isSimulationRunning = False\<rparr>"

definition init2 :: app_state where
  "init2 = \<lparr>balls = [], stats = zeroStats, history = []\<rparr>"

subsection \<open>dropBalls\<close>

text \<open>
  \<open>Array.from({ length: count }, generateBall)\<close> calls \<open>generateBall\<close> for the indices
  \<open>0, ..., ToLength(count) - 1\<close>; \<open>ToLength\<close> of a negative integer is 0, which is
  \<open>nat count\<close>. The random source is a function from the call's index to its draw.
  The engine's limit on array lengths is not modelled.
\<close>

definition newBalls :: "canvas \<Rightarrow> int \<Rightarrow> (nat \<Rightarrow> draw) \<Rightarrow> ball list" where
  "newBalls cs count rnd = map (\<lambda>i. generateBall cs (rnd i)) [0..<nat count]"

definition dropBalls1 :: "canvas \<Rightarrow> int \<Rightarrow> (nat \<Rightarrow> draw) \<Rightarrow> app_state1 \<Rightarrow> app_state1" where
  "dropBalls1 cs count rnd s =
     s\<lparr>balls := balls s @ newBalls cs count rnd, isSimulationRunning := True\<rparr>"

definition dropBalls2 :: "canvas \<Rightarrow> int \<Rightarrow> (nat \<Rightarrow> draw) \<Rightarrow> app_state \<Rightarrow> app_state" where
  "dropBalls2 cs count rnd s = s\<lparr>balls := balls s @ newBalls cs count rnd\<rparr>"

subsection \<open>Statistics: incremental (first component)\<close>

definition updateStats :: "ball \<Rightarrow> app_state1 \<Rightarrow> app_state1" where
  "updateStats landedBall s =
     (let prev = stats s;
          newTotal = totalInCircle prev + 1;
          newInSquare = totalInSquare prev + (if inSquare landedBall then 1 else 0);
          estPi = (if newInSquare > 0 then (2 * real newTotal) / real newInSquare else 0);
          err = \<bar>pi - estPi\<bar> / pi
      in s\<lparr>stats := \<lparr>totalInCircle = newTotal, totalInSquare = newInSquare,
                      estimatedPi = estPi, error = err\<rparr>,
           history := (if newTotal mod 10 = 0
                       then history s @ [\<lparr>index = newTotal, value_pt = estPi\<rparr>]
                       else history s)\<rparr>)"

subsection \<open>Animation: the interval callback (first component)\<close>

definition advance1 :: "ball \<Rightarrow> ball" where
  "advance1 b =
     (if status b = Falling then
        (let nextProgress = progress b + 0.05
         in if nextProgress \<ge> 1 then b\<lparr>progress := 1, status := Landed\<rparr>
            else b\<lparr>progress := nextProgress\<rparr>)
      else b)"

definition lands1 :: "ball \<Rightarrow> bool" where
  "lands1 b = (status b = Falling \<and> progress b + 0.05 \<ge> 1)"

text \<open>
  The effect installs the interval only while \<open>balls\<close> is not empty. The callback maps
  over the previous array; for each ball that lands it calls \<open>updateStats\<close>, whose
  queued updaters run in the order of the calls.
\<close>

definition intervalTick1 :: "app_state1 \<Rightarrow> app_state1" where
  "intervalTick1 s =
     (if balls s = [] then s
      else
        (let prev = balls s;
             changed = list_ex (\<lambda>b. status b = Falling) prev;
             s' = foldl (\<lambda>acc b. if lands1 b then updateStats b acc else acc) s prev
         in s'\<lparr>balls := map advance1 prev,
               isSimulationRunning := (if changed then isSimulationRunning s' else False)\<rparr>))"

subsection \<open>Animation: the frame callback (second component)\<close>

definition advance2 :: "ball \<Rightarrow> ball" where
  "advance2 b =
     (if status b = Falling then
        (let nextProgress = progress b + 0.08
         in if nextProgress \<ge> 1 then b\<lparr>progress := 1, status := Landed\<rparr>
            else b\<lparr>progress := nextProgress\<rparr>)
      else b)"

definition animate2 :: "app_state \<Rightarrow> app_state" where
  "animate2 s =
     (let prev = balls s;
          hasChanges = list_ex (\<lambda>b. status b = Falling) prev;
          next = map advance2 prev
      in s\<lparr>balls := (if hasChanges then next else prev)\<rparr>)"

subsection \<open>Statistics: recomputation in an effect (second component)\<close>

definition pushHistory :: "nat \<Rightarrow> real \<Rightarrow> HistoryPoint list \<Rightarrow> HistoryPoint list" where
  "pushHistory landedCount estPi h =
     (if length h > 0 \<and> index (last h) = landedCount then h
      else (let nextHistory = h @ [\<lparr>index = landedCount, value_pt = estPi\<rparr>]
            in drop (length nextHistory - 100) nextHistory))"

definition landedBalls :: "ball list \<Rightarrow> ball list" where
  "landedBalls bs = filter (\<lambda>b. status b = Landed) bs"

definition statsEffect2 :: "app_state \<Rightarrow> app_state" where
  "statsEffect2 s =
     (let landed = landedBalls (balls s);
          landedCount = length landed
      in if landedCount > totalInCircle (stats s) then
           (let inSquareCount = length (filter inSquare landed);
                estPi = (if inSquareCount > 0
                         then (2 * real landedCount) / real inSquareCount else 0);
                err = \<bar>pi - estPi\<bar> / pi
            in s\<lparr>stats := \<lparr>totalInCircle = landedCount, totalInSquare = inSquareCount,
                            estimatedPi = estPi, error = err\<rparr>,
                 history := (if landedCount mod 10 = 0 \<or> landedCount = 1
                             then pushHistory landedCount estPi (history s)
                             else history s)\<rparr>)
         else s)"

subsection \<open>resetSimulation (the same text in both components)\<close>

definition resetSimulation :: "'a app_state_scheme \<Rightarrow> 'a app_state_scheme" where
  "resetSimulation s =
     s\<lparr>balls := [],
       stats := \<lparr>totalInCircle = 0, totalInSquare = 0, estimatedPi = 0, error = 0\<rparr>,
       history := []\<rparr>"

section \<open>Runs: any sequence of user actions, ticks and effect runs\<close>

text \<open>
  The browser's event loop runs one handler at a time, so a run of a component is a list of
  events applied in order to the initial state: a click on a drop button (with the count
  and the random source of that call), one firing of the animation callback, a click on
  reset and, in the second component, one execution of the statistics effect on the state
  it then finds. The effect may run after any event or be delayed over several of them;
  the runs cover every such schedule. Each queued state updater is applied once.
\<close>

datatype event1 = Drop1 int "nat \<Rightarrow> draw" | Interval1 | Reset1

datatype event2 = Drop2 int "nat \<Rightarrow> draw" | Frame2 | Effect2 | Reset2

fun step1 :: "canvas \<Rightarrow> app_state1 \<Rightarrow> event1 \<Rightarrow> app_state1" where
  "step1 cs s (Drop1 count rnd) = dropBalls1 cs count rnd s"
| "step1 cs s Interval1 = intervalTick1 s"
| "step1 cs s Reset1 = resetSimulation s"

fun step2 :: "canvas \<Rightarrow> app_state \<Rightarrow> event2 \<Rightarrow> app_state" where
  "step2 cs s (Drop2 count rnd) = dropBalls2 cs count rnd s"
| "step2 cs s Frame2 = animate2 s"
| "step2 cs s Effect2 = statsEffect2 s"
| "step2 cs s Reset2 = resetSimulation s"

text \<open>A single sample after \<open>n\<close> ticks of the animation.\<close>

definition afterTicks1 :: "nat \<Rightarrow> ball \<Rightarrow> ball" where
  "afterTicks1 n b = (advance1 ^^ n) b"

definition afterTicks2 :: "nat \<Rightarrow> ball \<Rightarrow> ball" where
  "afterTicks2 n b = (advance2 ^^ n) b"

definition run1 :: "canvas \<Rightarrow> event1 list \<Rightarrow> app_state1" where
  "run1 cs es = foldl (step1 cs) init1 es"

definition run2 :: "canvas \<Rightarrow> event2 list \<Rightarrow> app_state" where
  "run2 cs es = foldl (step2 cs) init2 es"

section \<open>The commentary service (services/geminiService.ts)\<close>

text \<open>
  The SDK (\<open>@google/genai\<close>) and the process environment are not part of the repository:
  they are parameters of the model. A \<open>host\<close> gives the value of \<open>process.env.API_KEY\<close>
  (\<open>None\<close> for \<open>undefined\<close>), the outcome of \<open>new GoogleGenAI({ apiKey })\<close> (a client, or
  the exception it throws), the outcome of awaiting \<open>ai.models.generateContent\<close> for a model
  name and a prompt and reading \<open>response.text\<close> (the exception or rejection, or the value of
  \<open>text\<close>, \<open>None\<close> for \<open>undefined\<close>), and the rendering of the prompt template, which
  depends on the engine's number formatting.
\<close>

datatype js_error = JsError string

datatype 'a settled = Resolved 'a | Rejected js_error

record insight_stats =
  insight_total :: nat
  insight_square :: nat
  insight_estimate :: real
  insight_error :: real

record 'c host =
  env_API_KEY :: "string option"
  new_GoogleGenAI :: "string option \<Rightarrow> js_error + 'c"
  generateContent_text :: "'c \<Rightarrow> string \<Rightarrow> string \<Rightarrow> js_error + string option"
  prompt_text :: "insight_stats \<Rightarrow> string"

definition fallbackInsight :: string where
  "fallbackInsight =
     ''The laws of probability are currently contemplating your request. Try dropping more balls!''"

definition getAiClient :: "'c host \<Rightarrow> js_error + 'c" where
  "getAiClient h = new_GoogleGenAI h (env_API_KEY h)"

text \<open>
  The result is what \<open>console.error\<close> received and how the promise of the async function
  settles. The client is made before the \<open>try\<close> block is entered; only the call of
  \<open>generateContent\<close> and the read of \<open>response.text\<close> are inside it.
\<close>

definition getPiInsight :: "'c host \<Rightarrow> insight_stats \<Rightarrow> js_error list \<times> string option settled" where
  "getPiInsight h st =
     (case getAiClient h of
        Inl e \<Rightarrow> ([], Rejected e)
      | Inr ai \<Rightarrow>
          (let prompt = prompt_text h st
           in case generateContent_text h ai ''gemini-3-flash-preview'' prompt of
                Inr t \<Rightarrow> ([], Resolved t)
              | Inl e \<Rightarrow> ([e], Resolved (Some fallbackInsight))))"

text \<open>
  A browser without a key: the constructor of the SDK's browser build throws when
  \<open>apiKey\<close> is undefined.
\<close>

definition keylessBrowser :: "unit host" where
  "keylessBrowser =
     \<lparr>env_API_KEY = None,
      new_GoogleGenAI = (\<lambda>k. case k of
          None \<Rightarrow> Inl (JsError ''An API Key must be set when running in a browser'')
        | Some _ \<Rightarrow> Inr ()),
      generateContent_text = (\<lambda>ai model prompt. Inl (JsError ''Failed to fetch'')),
      prompt_text = (\<lambda>st. ''I am running a Monte Carlo simulation'')\<rparr>"

section \<open>Fixtures\<close>

text \<open>A draw that lands on the centre of the circle, for the examples.\<close>

definition centreDraw :: draw where
  "centreDraw = \<lparr>rand_radial = 0, rand_angle = 0, rand_id = ''centre''\<rparr>"

section \<open>Auxiliary notions for the proofs\<close>

definition statsFor :: "nat \<Rightarrow> nat \<Rightarrow> SimulationStats" where
  "statsFor t q =
     \<lparr>totalInCircle = t, totalInSquare = q,
      estimatedPi = (if q > 0 then (2 * real t) / real q else 0),
      error = \<bar>pi - (if q > 0 then (2 * real t) / real q else 0)\<bar> / pi\<rparr>"

text \<open>The updates queued by one interval callback: one per ball that lands.\<close>

definition landings :: "ball list \<Rightarrow> app_state1 \<Rightarrow> app_state1" where
  "landings bs s = foldl (\<lambda>acc b. if lands1 b then updateStats b acc else acc) s bs"

definition counts1 :: "app_state1 \<Rightarrow> bool" where
  "counts1 s \<longleftrightarrow>
     totalInCircle (stats s) = length (landedBalls (balls s)) \<and>
     totalInSquare (stats s) = length (filter inSquare (landedBalls (balls s)))"

definition shaped :: "SimulationStats \<Rightarrow> bool" where
  "shaped st \<longleftrightarrow>
     st = (if totalInCircle st = 0 then zeroStats
           else statsFor (totalInCircle st) (totalInSquare st))"

definition hist1 :: "app_state1 \<Rightarrow> bool" where
  "hist1 s \<longleftrightarrow>
     map index (history s) = map (\<lambda>k. 10 * Suc k) [0..<totalInCircle (stats s) div 10]"

definition lands2 :: "ball \<Rightarrow> bool" where
  "lands2 b = (status b = Falling \<and> progress b + 0.08 \<ge> 1)"

text \<open>What the statistics lag behind: the landed balls the effect has not seen yet.\<close>

definition lag2 :: "app_state \<Rightarrow> bool" where
  "lag2 s \<longleftrightarrow>
     totalInCircle (stats s) \<le> length (landedBalls (balls s)) \<and>
     totalInSquare (stats s) \<le> length (filter inSquare (landedBalls (balls s))) \<and>
     length (filter inSquare (landedBalls (balls s))) + totalInCircle (stats s)
       \<le> length (landedBalls (balls s)) + totalInSquare (stats s)"

definition hist2 :: "app_state \<Rightarrow> bool" where
  "hist2 s \<longleftrightarrow>
     sorted_wrt (<) (map index (history s)) \<and>
     list_all (\<lambda>p. index p \<le> totalInCircle (stats s)) (history s) \<and>
     length (history s) \<le> 100"

section \<open>Auxiliary facts\<close>

lemma statsFor_sel [simp]:
  "totalInCircle (statsFor t q) = t"
  "totalInSquare (statsFor t q) = q"
  "estimatedPi (statsFor t q) = (if q > 0 then (2 * real t) / real q else 0)"
  "error (statsFor t q) = \<bar>pi - (if q > 0 then (2 * real t) / real q else 0)\<bar> / pi"
  by (simp_all add: statsFor_def)

lemma stats_updateStats:
  "stats (updateStats b s) =
     statsFor (totalInCircle (stats s) + 1)
              (totalInSquare (stats s) + (if inSquare b then 1 else 0))"
  by (simp add: updateStats_def statsFor_def Let_def)

lemma balls_updateStats [simp]: "balls (updateStats b s) = balls s"
  by (simp add: updateStats_def Let_def)

lemma running_updateStats [simp]:
  "isSimulationRunning (updateStats b s) = isSimulationRunning s"
  by (simp add: updateStats_def Let_def)

lemma history_updateStats:
  "history (updateStats b s) =
     (if (totalInCircle (stats s) + 1) mod 10 = 0
      then history s @ [\<lparr>index = totalInCircle (stats s) + 1,
                          value_pt = estimatedPi (stats (updateStats b s))\<rparr>]
      else history s)"
  by (simp add: updateStats_def Let_def)

lemma landings_simps [simp]:
  "landings [] s = s"
  "landings (b # bs) s = landings bs (if lands1 b then updateStats b s else s)"
  by (simp_all add: landings_def)

lemma balls_landings [simp]: "balls (landings bs s) = balls s"
  by (induction bs arbitrary: s) simp_all

lemma running_landings [simp]: "isSimulationRunning (landings bs s) = isSimulationRunning s"
  by (induction bs arbitrary: s) simp_all

lemma totalInCircle_landings:
  "totalInCircle (stats (landings bs s)) = totalInCircle (stats s) + length (filter lands1 bs)"
  by (induction bs arbitrary: s) (simp_all add: stats_updateStats)

lemma totalInSquare_landings:
  "totalInSquare (stats (landings bs s)) =
     totalInSquare (stats s) + length (filter inSquare (filter lands1 bs))"
  by (induction bs arbitrary: s) (simp_all add: stats_updateStats)

lemma stats_landings_none:
  "filter lands1 bs = [] \<Longrightarrow> stats (landings bs s) = stats s"
  by (induction bs arbitrary: s) (simp_all split: if_splits)

lemma stats_landings_some:
  "filter lands1 bs \<noteq> [] \<Longrightarrow>
   stats (landings bs s) =
     statsFor (totalInCircle (stats s) + length (filter lands1 bs))
              (totalInSquare (stats s) + length (filter inSquare (filter lands1 bs)))"
proof (induction bs arbitrary: s)
  case Nil
  then show ?case by simp
next
  case (Cons b bs)
  show ?case
  proof (cases "filter lands1 bs = []")
    case True
    with Cons.prems have "lands1 b" by (simp split: if_splits)
    with True show ?thesis by (simp add: stats_landings_none stats_updateStats)
  next
    case False
    from Cons.IH [OF False] show ?thesis by (simp add: stats_updateStats)
  qed
qed

lemma intervalTick1_sel:
  "balls (intervalTick1 s) = map advance1 (balls s)"
  "stats (intervalTick1 s) = stats (landings (balls s) s)"
  "history (intervalTick1 s) = history (landings (balls s) s)"
  by (simp_all add: intervalTick1_def landings_def Let_def)

lemma landed_after_advance1:
  "length (landedBalls (map advance1 bs)) = length (landedBalls bs) + length (filter lands1 bs)"
  by (induction bs) (simp_all add: landedBalls_def advance1_def lands1_def Let_def)

lemma landed_inSquare_after_advance1:
  "length (filter inSquare (landedBalls (map advance1 bs))) =
     length (filter inSquare (landedBalls bs)) + length (filter inSquare (filter lands1 bs))"
  by (induction bs) (simp_all add: landedBalls_def advance1_def lands1_def Let_def)

lemma generateBall_sel [simp]:
  "status (generateBall cs d) = Falling"
  "progress (generateBall cs d) = 0"
  "ball_id (generateBall cs d) = rand_id d"
  "y (generateBall cs d) = - 20"
  by (simp_all add: generateBall_def Let_def)

lemma landedBalls_newBalls [simp]: "landedBalls (newBalls cs count rnd) = []"
  by (simp add: landedBalls_def newBalls_def)

lemma landedBalls_append [simp]: "landedBalls (as @ bs) = landedBalls as @ landedBalls bs"
  by (simp add: landedBalls_def)

lemma landedBalls_Nil [simp]: "landedBalls [] = []"
  by (simp add: landedBalls_def)

subsection \<open>Invariants of the first component\<close>

lemma shaped_zero: "shaped zeroStats"
  by (simp add: shaped_def zeroStats_def)

lemma shaped_statsFor: "0 < t \<Longrightarrow> shaped (statsFor t q)"
  by (simp add: shaped_def)

lemma counts1_step: "counts1 s \<Longrightarrow> counts1 (step1 cs s e)"
proof (cases e)
  case (Drop1 count rnd)
  assume "counts1 s"
  with Drop1 show ?thesis by (simp add: counts1_def dropBalls1_def)
next
  case Interval1
  assume "counts1 s"
  with Interval1 show ?thesis
    by (simp add: counts1_def intervalTick1_sel totalInCircle_landings totalInSquare_landings
        landed_after_advance1 landed_inSquare_after_advance1)
next
  case Reset1
  then show ?thesis by (simp add: counts1_def resetSimulation_def)
qed

lemma shaped_landings: "shaped (stats s) \<Longrightarrow> shaped (stats (landings bs s))"
proof (cases "filter lands1 bs = []")
  case True
  assume "shaped (stats s)"
  with True show ?thesis by (simp only: stats_landings_none)
next
  case False
  then have "0 < totalInCircle (stats s) + length (filter lands1 bs)" by simp
  then show ?thesis by (simp only: stats_landings_some [OF False] shaped_statsFor)
qed

lemma shaped_step1: "shaped (stats s) \<Longrightarrow> shaped (stats (step1 cs s e))"
proof (cases e)
  case (Drop1 count rnd)
  assume "shaped (stats s)"
  with Drop1 show ?thesis by (simp add: dropBalls1_def)
next
  case Interval1
  assume "shaped (stats s)"
  from shaped_landings [OF this, of "balls s"] Interval1 show ?thesis
    by (simp add: intervalTick1_sel)
next
  case Reset1
  with shaped_zero show ?thesis by (simp add: resetSimulation_def zeroStats_def)
qed

lemma div10_Suc_hit: "Suc t mod 10 = 0 \<Longrightarrow> Suc t div 10 = Suc (t div 10)"
  by (simp add: div_Suc)

lemma div10_Suc_miss: "Suc t mod 10 \<noteq> 0 \<Longrightarrow> Suc t div 10 = t div 10"
  by (simp add: div_Suc)

lemma tens_Suc: "Suc t mod 10 = 0 \<Longrightarrow> 10 * Suc (t div 10) = Suc t"
proof -
  assume a: "Suc t mod 10 = 0"
  then have "Suc t div 10 = Suc (t div 10)" by (rule div10_Suc_hit)
  moreover from a have "10 * (Suc t div 10) = Suc t"
    by (metis mult_div_mod_eq add.right_neutral)
  ultimately show ?thesis by simp
qed

lemma hist1_updateStats: "hist1 s \<Longrightarrow> hist1 (updateStats b s)"
proof (cases "Suc (totalInCircle (stats s)) mod 10 = 0")
  case True
  assume h: "hist1 s"
  with True tens_Suc [OF True] show ?thesis
    by (simp add: hist1_def history_updateStats stats_updateStats div10_Suc_hit)
next
  case False
  assume h: "hist1 s"
  with False show ?thesis
    by (simp add: hist1_def history_updateStats stats_updateStats div10_Suc_miss)
qed

lemma hist1_landings: "hist1 s \<Longrightarrow> hist1 (landings bs s)"
  by (induction bs arbitrary: s) (simp_all add: hist1_updateStats)

lemma hist1_step: "hist1 s \<Longrightarrow> hist1 (step1 cs s e)"
proof (cases e)
  case (Drop1 count rnd)
  assume "hist1 s"
  with Drop1 show ?thesis by (simp add: hist1_def dropBalls1_def)
next
  case Interval1
  assume "hist1 s"
  from hist1_landings [OF this, of "balls s"] Interval1 show ?thesis
    by (simp add: hist1_def intervalTick1_sel)
next
  case Reset1
  then show ?thesis by (simp add: hist1_def resetSimulation_def)
qed

lemma inv1_foldl:
  "counts1 s \<and> shaped (stats s) \<and> hist1 s \<Longrightarrow>
   counts1 (foldl (step1 cs) s es) \<and> shaped (stats (foldl (step1 cs) s es)) \<and>
   hist1 (foldl (step1 cs) s es)"
  by (induction es arbitrary: s) (simp_all add: counts1_step shaped_step1 hist1_step)

lemma inv1_init: "counts1 init1 \<and> shaped (stats init1) \<and> hist1 init1"
  using shaped_zero by (simp add: counts1_def hist1_def init1_def zeroStats_def)

lemma inv1_run:
  "counts1 (run1 cs es) \<and> shaped (stats (run1 cs es)) \<and> hist1 (run1 cs es)"
  unfolding run1_def by (rule inv1_foldl [OF inv1_init])

lemma sorted_wrt_tens: "sorted_wrt (<) (map (\<lambda>k. 10 * Suc k) [0..<n])"
  by (simp add: sorted_wrt_map del: upt_Suc)

lemma hist1_sorted: "hist1 s \<Longrightarrow> sorted_wrt (<) (map index (history s))"
  by (simp only: hist1_def sorted_wrt_tens)

lemma hist1_length: "hist1 s \<Longrightarrow> length (history s) = totalInCircle (stats s) div 10"
proof -
  assume "hist1 s"
  then have "length (map index (history s)) = length (map (\<lambda>k. 10 * Suc k) [0..<totalInCircle (stats s) div 10])"
    by (simp only: hist1_def)
  then show ?thesis by simp
qed

subsection \<open>Invariants of the second component\<close>

lemma advance2_idle: "\<not> list_ex (\<lambda>b. status b = Falling) bs \<Longrightarrow> map advance2 bs = bs"
  by (induction bs) (simp_all add: advance2_def)

lemma animate2_sel:
  "balls (animate2 s) = map advance2 (balls s)"
  "stats (animate2 s) = stats s"
  "history (animate2 s) = history s"
  by (simp_all add: animate2_def Let_def advance2_idle)

lemma landed_after_advance2:
  "length (landedBalls (map advance2 bs)) = length (landedBalls bs) + length (filter lands2 bs)"
  by (induction bs) (simp_all add: landedBalls_def advance2_def lands2_def Let_def)

lemma landed_inSquare_after_advance2:
  "length (filter inSquare (landedBalls (map advance2 bs))) =
     length (filter inSquare (landedBalls bs)) + length (filter inSquare (filter lands2 bs))"
  by (induction bs) (simp_all add: landedBalls_def advance2_def lands2_def Let_def)

lemma statsEffect2_fire:
  "totalInCircle (stats s) < length (landedBalls (balls s)) \<Longrightarrow>
   stats (statsEffect2 s) =
     statsFor (length (landedBalls (balls s))) (length (filter inSquare (landedBalls (balls s))))"
  by (simp add: statsEffect2_def Let_def statsFor_def)

lemma statsEffect2_idle:
  "\<not> totalInCircle (stats s) < length (landedBalls (balls s)) \<Longrightarrow> statsEffect2 s = s"
  by (simp add: statsEffect2_def Let_def)

lemma balls_statsEffect2 [simp]: "balls (statsEffect2 s) = balls s"
  by (simp add: statsEffect2_def Let_def)

lemma history_statsEffect2_fire:
  "totalInCircle (stats s) < length (landedBalls (balls s)) \<Longrightarrow>
   history (statsEffect2 s) =
     (if length (landedBalls (balls s)) mod 10 = 0 \<or> length (landedBalls (balls s)) = 1
      then pushHistory (length (landedBalls (balls s)))
             (estimatedPi (stats (statsEffect2 s))) (history s)
      else history s)"
  by (simp add: statsEffect2_def Let_def)

lemma lag2_step: "lag2 s \<Longrightarrow> lag2 (step2 cs s e)"
proof (cases e)
  case (Drop2 count rnd)
  assume "lag2 s"
  with Drop2 show ?thesis by (simp add: lag2_def dropBalls2_def)
next
  case Frame2
  assume a: "lag2 s"
  have "length (filter inSquare (filter lands2 (balls s))) \<le> length (filter lands2 (balls s))"
    by (rule length_filter_le)
  with a Frame2 show ?thesis
    by (simp add: lag2_def animate2_sel landed_after_advance2 landed_inSquare_after_advance2)
next
  case Effect2
  assume a: "lag2 s"
  show ?thesis
  proof (cases "totalInCircle (stats s) < length (landedBalls (balls s))")
    case True
    with Effect2 show ?thesis by (simp add: lag2_def statsEffect2_fire)
  next
    case False
    with a Effect2 show ?thesis by (simp add: statsEffect2_idle)
  qed
next
  case Reset2
  then show ?thesis by (simp add: lag2_def resetSimulation_def)
qed

lemma shaped_step2: "shaped (stats s) \<Longrightarrow> shaped (stats (step2 cs s e))"
proof (cases e)
  case (Drop2 count rnd)
  assume "shaped (stats s)"
  with Drop2 show ?thesis by (simp add: dropBalls2_def)
next
  case Frame2
  assume "shaped (stats s)"
  with Frame2 show ?thesis by (simp add: animate2_sel)
next
  case Effect2
  assume a: "shaped (stats s)"
  show ?thesis
  proof (cases "totalInCircle (stats s) < length (landedBalls (balls s))")
    case True
    then have "0 < length (landedBalls (balls s))" by linarith
    with True Effect2 show ?thesis by (simp add: statsEffect2_fire shaped_statsFor)
  next
    case False
    with a Effect2 show ?thesis by (simp add: statsEffect2_idle)
  qed
next
  case Reset2
  with shaped_zero show ?thesis by (simp add: resetSimulation_def zeroStats_def)
qed

lemma pushHistory_fresh:
  "list_all (\<lambda>p. index p < n) h \<Longrightarrow>
   pushHistory n v h = drop (Suc (length h) - 100) (h @ [\<lparr>index = n, value_pt = v\<rparr>])"
proof (cases h rule: rev_cases)
  case Nil
  then show ?thesis by (simp add: pushHistory_def)
next
  case (snoc ps p)
  assume "list_all (\<lambda>p. index p < n) h"
  with snoc have "index p < n" by simp
  with snoc show ?thesis by (simp add: pushHistory_def Let_def)
qed

lemma sorted_snoc_fresh:
  "sorted_wrt (<) (map index h) \<Longrightarrow> list_all (\<lambda>p. index p < n) h \<Longrightarrow>
   sorted_wrt (<) (map index (h @ [\<lparr>index = n, value_pt = v\<rparr>]))"
  by (simp add: sorted_wrt_append list_all_iff)

lemma pushHistory_keeps:
  assumes "sorted_wrt (<) (map index h)" and "list_all (\<lambda>p. index p < n) h"
    and "length h \<le> 100"
  shows "sorted_wrt (<) (map index (pushHistory n v h))"
    and "list_all (\<lambda>p. index p \<le> n) (pushHistory n v h)"
    and "length (pushHistory n v h) \<le> 100"
proof -
  let ?nh = "h @ [\<lparr>index = n, value_pt = v\<rparr>]"
  have eq: "pushHistory n v h = drop (Suc (length h) - 100) ?nh"
    using assms(2) by (rule pushHistory_fresh)
  have "sorted_wrt (<) (map index ?nh)"
    using assms(1,2) by (rule sorted_snoc_fresh)
  then show "sorted_wrt (<) (map index (pushHistory n v h))"
    unfolding eq drop_map [symmetric] by (rule sorted_wrt_drop)
  have "list_all (\<lambda>p. index p \<le> n) ?nh"
    using assms(2) by (auto simp: list_all_iff)
  then show "list_all (\<lambda>p. index p \<le> n) (pushHistory n v h)"
    unfolding eq list_all_iff using set_drop_subset [of "Suc (length h) - 100" ?nh] by blast
  show "length (pushHistory n v h) \<le> 100"
    unfolding eq using assms(3) by simp
qed

lemma list_all_mono_index:
  "list_all (\<lambda>p. index p \<le> t) h \<Longrightarrow> t < n \<Longrightarrow> list_all (\<lambda>p. index p < n) h"
  by (auto simp: list_all_iff)

lemma list_all_weaken_index:
  "list_all (\<lambda>p. index p \<le> t) h \<Longrightarrow> t \<le> n \<Longrightarrow> list_all (\<lambda>p. index p \<le> n) h"
  by (auto simp: list_all_iff)

lemma hist2_statsEffect2: "hist2 s \<Longrightarrow> hist2 (statsEffect2 s)"
proof (cases "totalInCircle (stats s) < length (landedBalls (balls s))")
  case False
  assume "hist2 s"
  with False show ?thesis by (simp add: statsEffect2_idle)
next
  case True
  assume a: "hist2 s"
  let ?n = "length (landedBalls (balls s))"
  let ?v = "estimatedPi (stats (statsEffect2 s))"
  from a have srt: "sorted_wrt (<) (map index (history s))"
    and le: "list_all (\<lambda>p. index p \<le> totalInCircle (stats s)) (history s)"
    and len: "length (history s) \<le> 100"
    by (simp_all add: hist2_def)
  from le True have lt: "list_all (\<lambda>p. index p < ?n) (history s)"
    by (rule list_all_mono_index)
  from le True have le': "list_all (\<lambda>p. index p \<le> ?n) (history s)"
    by (simp add: list_all_weaken_index)
  have tot: "totalInCircle (stats (statsEffect2 s)) = ?n"
    using True by (simp add: statsEffect2_fire)
  show ?thesis
    unfolding hist2_def tot history_statsEffect2_fire [OF True]
    using pushHistory_keeps [OF srt lt len, of ?v] srt le' len by simp
qed

lemma hist2_step: "hist2 s \<Longrightarrow> hist2 (step2 cs s e)"
proof (cases e)
  case (Drop2 count rnd)
  assume "hist2 s"
  with Drop2 show ?thesis by (simp add: hist2_def dropBalls2_def)
next
  case Frame2
  assume "hist2 s"
  with Frame2 show ?thesis by (simp add: hist2_def animate2_sel)
next
  case Effect2
  assume "hist2 s"
  with Effect2 show ?thesis by (simp add: hist2_statsEffect2)
next
  case Reset2
  then show ?thesis by (simp add: hist2_def resetSimulation_def)
qed

lemma inv2_foldl:
  "lag2 s \<and> shaped (stats s) \<and> hist2 s \<Longrightarrow>
   lag2 (foldl (step2 cs) s es) \<and> shaped (stats (foldl (step2 cs) s es)) \<and>
   hist2 (foldl (step2 cs) s es)"
  by (induction es arbitrary: s) (simp_all add: lag2_step shaped_step2 hist2_step)

lemma inv2_init: "lag2 init2 \<and> shaped (stats init2) \<and> hist2 init2"
  using shaped_zero by (simp add: lag2_def hist2_def init2_def zeroStats_def)

lemma inv2_run: "lag2 (run2 cs es) \<and> shaped (stats (run2 cs es)) \<and> hist2 (run2 cs es)"
  unfolding run2_def by (rule inv2_foldl [OF inv2_init])

lemma order2_step:
  "totalInSquare (stats s) \<le> totalInCircle (stats s) \<Longrightarrow>
   totalInSquare (stats (step2 cs s e)) \<le> totalInCircle (stats (step2 cs s e))"
proof (cases e)
  case (Drop2 count rnd)
  assume "totalInSquare (stats s) \<le> totalInCircle (stats s)"
  with Drop2 show ?thesis by (simp add: dropBalls2_def)
next
  case Frame2
  assume "totalInSquare (stats s) \<le> totalInCircle (stats s)"
  with Frame2 show ?thesis by (simp add: animate2_sel)
next
  case Effect2
  assume a: "totalInSquare (stats s) \<le> totalInCircle (stats s)"
  show ?thesis
  proof (cases "totalInCircle (stats s) < length (landedBalls (balls s))")
    case True
    with Effect2 show ?thesis by (simp add: statsEffect2_fire)
  next
    case False
    with a Effect2 show ?thesis by (simp add: statsEffect2_idle)
  qed
next
  case Reset2
  then show ?thesis by (simp add: resetSimulation_def)
qed

lemma order2_foldl:
  "totalInSquare (stats s) \<le> totalInCircle (stats s) \<Longrightarrow>
   totalInSquare (stats (foldl (step2 cs) s es)) \<le> totalInCircle (stats (foldl (step2 cs) s es))"
  by (induction es arbitrary: s) (simp_all add: order2_step)

lemma order2_run: "totalInSquare (stats (run2 cs es)) \<le> totalInCircle (stats (run2 cs es))"
  unfolding run2_def by (rule order2_foldl) (simp add: init2_def zeroStats_def)

lemma shaped_estimate:
  assumes "shaped st"
  shows "estimatedPi st =
    (if totalInSquare st > 0 then 2 * real (totalInCircle st) / real (totalInSquare st) else 0)"
proof (cases "totalInCircle st = 0")
  case True
  with assms have "st = zeroStats" by (simp add: shaped_def)
  then have "estimatedPi st = 0" "totalInSquare st = 0" by (simp_all add: zeroStats_def)
  then show ?thesis by simp
next
  case False
  with assms have "st = statsFor (totalInCircle st) (totalInSquare st)" by (simp add: shaped_def)
  then have "estimatedPi st = estimatedPi (statsFor (totalInCircle st) (totalInSquare st))"
    by (rule arg_cong)
  then show ?thesis by simp
qed

lemma effect_counts:
  assumes "lag2 s"
  shows "totalInCircle (stats (statsEffect2 s)) = length (landedBalls (balls s))"
    and "totalInSquare (stats (statsEffect2 s)) = length (filter inSquare (landedBalls (balls s)))"
proof -
  show "totalInCircle (stats (statsEffect2 s)) = length (landedBalls (balls s))"
  proof (cases "totalInCircle (stats s) < length (landedBalls (balls s))")
    case True
    then show ?thesis by (simp add: statsEffect2_fire)
  next
    case False
    with assms show ?thesis by (simp add: statsEffect2_idle lag2_def)
  qed
  show "totalInSquare (stats (statsEffect2 s)) = length (filter inSquare (landedBalls (balls s)))"
  proof (cases "totalInCircle (stats s) < length (landedBalls (balls s))")
    case True
    then show ?thesis by (simp add: statsEffect2_fire)
  next
    case False
    with assms show ?thesis by (simp add: statsEffect2_idle lag2_def)
  qed
qed

subsection \<open>A sample under repeated ticks\<close>

lemma afterTicks1_simps:
  "afterTicks1 0 b = b"
  "afterTicks1 (Suc n) b = advance1 (afterTicks1 n b)"
  by (simp_all add: afterTicks1_def)

lemma afterTicks2_simps:
  "afterTicks2 0 b = b"
  "afterTicks2 (Suc n) b = advance2 (afterTicks2 n b)"
  by (simp_all add: afterTicks2_def)

lemma afterTicks1_closed:
  assumes "status b = Falling" and "progress b = 0"
  shows "afterTicks1 n b =
           (if n < 20 then b\<lparr>progress := real n * 0.05\<rparr>
            else b\<lparr>progress := 1, status := Landed\<rparr>)"
proof (induction n)
  case 0
  from assms(2) have "b\<lparr>progress := 0\<rparr> = b" by (cases b) simp
  then show ?case by (simp add: afterTicks1_simps)
next
  case (Suc n)
  consider "n < 19" | "n = 19" | "20 \<le> n" by linarith
  then show ?case
  proof cases
    case 1
    then have "real n * 0.05 + 0.05 < 1" by simp
    with 1 Suc assms(1) show ?thesis
      by (simp add: afterTicks1_simps advance1_def Let_def algebra_simps)
  next
    case 2
    have "afterTicks1 (Suc n) b = advance1 (b\<lparr>progress := real n * 0.05\<rparr>)"
      unfolding afterTicks1_simps(2) Suc using 2 by simp
    also have "\<dots> = b\<lparr>progress := 1, status := Landed\<rparr>"
      using 2 assms(1) by (simp add: advance1_def Let_def)
    finally show ?thesis using 2 by simp
  next
    case 3
    with Suc show ?thesis
      by (simp add: afterTicks1_simps advance1_def)
  qed
qed

lemma afterTicks2_closed:
  assumes "status b = Falling" and "progress b = 0"
  shows "afterTicks2 n b =
           (if n < 13 then b\<lparr>progress := real n * 0.08\<rparr>
            else b\<lparr>progress := 1, status := Landed\<rparr>)"
proof (induction n)
  case 0
  from assms(2) have "b\<lparr>progress := 0\<rparr> = b" by (cases b) simp
  then show ?case by (simp add: afterTicks2_simps)
next
  case (Suc n)
  consider "n < 12" | "n = 12" | "13 \<le> n" by linarith
  then show ?case
  proof cases
    case 1
    then have "real n * 0.08 + 0.08 < 1" by simp
    with 1 Suc assms(1) show ?thesis
      by (simp add: afterTicks2_simps advance2_def Let_def algebra_simps)
  next
    case 2
    have "afterTicks2 (Suc n) b = advance2 (b\<lparr>progress := real n * 0.08\<rparr>)"
      unfolding afterTicks2_simps(2) Suc using 2 by simp
    also have "\<dots> = b\<lparr>progress := 1, status := Landed\<rparr>"
      using 2 assms(1) by (simp add: advance2_def Let_def)
    finally show ?thesis using 2 by simp
  next
    case 3
    with Suc show ?thesis
      by (simp add: afterTicks2_simps advance2_def)
  qed
qed

lemma balls_ticks1:
  "balls (foldl (step1 cs) s (replicate n Interval1)) = map (afterTicks1 n) (balls s)"
proof (induction n arbitrary: s)
  case 0
  show ?case by (simp add: afterTicks1_def)
next
  case (Suc n)
  have "afterTicks1 (Suc n) = afterTicks1 n \<circ> advance1"
    by (rule ext) (simp add: afterTicks1_def funpow_swap1)
  with Suc [of "intervalTick1 s"] show ?case
    by (simp add: intervalTick1_sel)
qed

lemma balls_frames2:
  "balls (foldl (step2 cs) s (replicate n Frame2)) = map (afterTicks2 n) (balls s)"
proof (induction n arbitrary: s)
  case 0
  show ?case by (simp add: afterTicks2_def)
next
  case (Suc n)
  have "afterTicks2 (Suc n) = afterTicks2 n \<circ> advance2"
    by (rule ext) (simp add: afterTicks2_def funpow_swap1)
  with Suc [of "animate2 s"] show ?case
    by (simp add: animate2_sel)
qed

lemma length_newBalls: "length (newBalls cs count rnd) = nat count"
  by (simp add: newBalls_def)

lemma landed_after_20:
  "landedBalls (map (afterTicks1 20) (newBalls cs count rnd)) =
     map (afterTicks1 20) (newBalls cs count rnd)"
  by (simp add: landedBalls_def newBalls_def afterTicks1_closed)

subsection \<open>Pushing onto the history\<close>

lemma pushHistory_full:
  assumes "length h = 100" and "index (last h) \<noteq> n"
  shows "pushHistory n v h = tl h @ [\<lparr>index = n, value_pt = v\<rparr>]"
proof -
  from assms(1) obtain p ps where h: "h = p # ps" by (cases h) simp_all
  with assms show ?thesis by (simp add: pushHistory_def Let_def)
qed

lemma pushHistory_short:
  assumes "length h < 100" and "h = [] \<or> index (last h) \<noteq> n"
  shows "pushHistory n v h = h @ [\<lparr>index = n, value_pt = v\<rparr>]"
  using assms by (auto simp: pushHistory_def Let_def)

lemma advance1_landed: "status b = Landed \<Longrightarrow> advance1 b = b"
  by (simp add: advance1_def)

lemma advance2_landed: "status b = Landed \<Longrightarrow> advance2 b = b"
  by (simp add: advance2_def)

lemma transition_once:
  assumes "\<And>k. status (f k) = (if k < N then Falling else Landed)" and "0 < N"
  shows "\<exists>!k. status (f k) = Falling \<and> status (f (Suc k)) = Landed"
proof (rule ex1I [of _ "N - 1"])
  from assms show "status (f (N - 1)) = Falling \<and> status (f (Suc (N - 1))) = Landed"
    by simp
next
  fix k
  assume "status (f k) = Falling \<and> status (f (Suc k)) = Landed"
  with assms(1) have "k < N" and "\<not> Suc k < N"
    by (auto split: if_splits)
  then show "k = N - 1" by linarith
qed

subsection \<open>The sampler\<close>

lemma generateBall_target:
  "targetX (generateBall cs d) =
     centerX cs + radius cs * sqrt (rand_radial d) * cos (rand_angle d * 2 * pi)"
  "targetY (generateBall cs d) =
     centerY cs + radius cs * sqrt (rand_radial d) * sin (rand_angle d * 2 * pi)"
  "x (generateBall cs d) = targetX (generateBall cs d)"
  by (simp_all add: generateBall_def Let_def)

lemma generateBall_inSquare:
  "inSquare (generateBall cs d) =
     (targetX (generateBall cs d) \<ge> centerX cs - squareSize cs / 2 \<and>
      targetX (generateBall cs d) \<le> centerX cs + squareSize cs / 2 \<and>
      targetY (generateBall cs d) \<ge> centerY cs - squareSize cs / 2 \<and>
      targetY (generateBall cs d) \<le> centerY cs + squareSize cs / 2)"
  by (simp add: generateBall_def Let_def)

lemma polar_norm:
  fixes r :: real
  shows "(r * cos t)\<^sup>2 + (r * sin t)\<^sup>2 = r\<^sup>2"
proof -
  have "(r * cos t)\<^sup>2 + (r * sin t)\<^sup>2 = r\<^sup>2 * ((cos t)\<^sup>2 + (sin t)\<^sup>2)"
    by (simp only: power_mult_distrib distrib_left)
  also have "\<dots> = r\<^sup>2" by (simp add: add.commute)
  finally show ?thesis .
qed

text \<open>
  With exact real arithmetic the landing point is within the radius of the centre. This is
  a fact about the construction only: the program computes the same expressions in IEEE
  doubles, with \<open>Math.cos\<close> and \<open>Math.sin\<close> approximated by the engine, and there rounding
  can put the point just outside the disc. On the 600 by 600 canvas the radial draw
  \<open>1 - 2^-52\<close> with the angle draw \<open>0.9958810806274414\<close> gives the doubles
  \<open>(539.9196319697382, 293.78950923796185)\<close>, at distance \<open>240.00000000000003\<close> from the
  centre. No statement about the distance of the computed point follows from the lemma.
\<close>

lemma landing_point_exact_arithmetic:
  assumes "0 < radius cs" and "0 \<le> rand_radial d" and "rand_radial d < 1"
  shows "sqrt ((targetX (generateBall cs d) - centerX cs)\<^sup>2 +
               (targetY (generateBall cs d) - centerY cs)\<^sup>2) \<le> radius cs"
proof -
  let ?r = "radius cs * sqrt (rand_radial d)"
  let ?t = "rand_angle d * 2 * pi"
  have "(targetX (generateBall cs d) - centerX cs)\<^sup>2 +
        (targetY (generateBall cs d) - centerY cs)\<^sup>2 = (?r * cos ?t)\<^sup>2 + (?r * sin ?t)\<^sup>2"
    by (simp add: generateBall_target)
  also have "\<dots> = ?r\<^sup>2" by (rule polar_norm)
  finally have "sqrt ((targetX (generateBall cs d) - centerX cs)\<^sup>2 +
        (targetY (generateBall cs d) - centerY cs)\<^sup>2) = \<bar>?r\<bar>"
    by simp
  also from assms(1,2) have "\<bar>?r\<bar> = radius cs * sqrt (rand_radial d)" by simp
  also have "\<dots> \<le> radius cs * 1"
  proof (rule mult_left_mono)
    from assms(3) show "sqrt (rand_radial d) \<le> 1" by simp
    from assms(1) show "0 \<le> radius cs" by simp
  qed
  finally show ?thesis by simp
qed

subsection \<open>One landed sample\<close>

lemma shaped_counts:
  assumes "shaped st" and "totalInCircle st = t" and "totalInSquare st = q" and "0 < t"
  shows "st = statsFor t q"
proof -
  from assms(2,4) have "totalInCircle st \<noteq> 0" by simp
  with assms(1) have "st = statsFor (totalInCircle st) (totalInSquare st)"
    by (simp add: shaped_def)
  with assms(2,3) show ?thesis by simp
qed

lemma statsFor_one: "statsFor 1 1 =
   \<lparr>totalInCircle = 1, totalInSquare = 1, estimatedPi = 2, error = \<bar>pi - 2\<bar> / pi\<rparr>"
  by (simp add: statsFor_def)

lemma newBalls_one: "newBalls cs 1 rnd = [generateBall cs (rnd 0)]"
  by (simp add: newBalls_def)

lemma balls_one_landed1:
  "balls (run1 cs (Drop1 1 rnd # replicate 20 Interval1)) =
     [(generateBall cs (rnd 0))\<lparr>progress := 1, status := Landed\<rparr>]"
  by (simp add: run1_def balls_ticks1 dropBalls1_def init1_def newBalls_one afterTicks1_closed)

lemma balls_one_landed2:
  "balls (run2 cs (Drop2 1 rnd # replicate 13 Frame2)) =
     [(generateBall cs (rnd 0))\<lparr>progress := 1, status := Landed\<rparr>]"
  by (simp add: run2_def balls_frames2 dropBalls2_def init2_def newBalls_one afterTicks2_closed)

lemma centre_ball:
  "targetX (generateBall canvasSize centreDraw) = 300"
  "targetY (generateBall canvasSize centreDraw) = 300"
  "inSquare (generateBall canvasSize centreDraw)"
  by (simp_all add: generateBall_def Let_def centreDraw_def canvasSize_def centerX_def
      centerY_def radius_def squareSize_def)

lemma within_half:
  fixes a b h :: real
  shows "(cx - h \<le> a \<and> a \<le> cx + h \<and> cy - h \<le> b \<and> b \<le> cy + h) =
         (\<bar>a - cx\<bar> \<le> h \<and> \<bar>b - cy\<bar> \<le> h)"
  by (auto simp: abs_le_iff)

subsection \<open>Incremental updates from any state\<close>

lemma stats_incremental:
  "ls \<noteq> [] \<Longrightarrow>
   stats (foldl (\<lambda>acc b. updateStats b acc) s ls) =
     statsFor (totalInCircle (stats s) + length ls)
              (totalInSquare (stats s) + length (filter inSquare ls))"
proof (induction ls arbitrary: s)
  case Nil
  then show ?case by simp
next
  case (Cons b bs)
  show ?case
  proof (cases "bs = []")
    case True
    then show ?thesis by (simp add: stats_updateStats)
  next
    case False
    from Cons.IH [OF False, of "updateStats b s"] show ?thesis
      by (simp add: stats_updateStats)
  qed
qed

subsection \<open>The commentary service\<close>

lemma getPiInsight_with_client:
  "getAiClient h = Inr ai \<Longrightarrow>
   getPiInsight h st =
     (case generateContent_text h ai ''gemini-3-flash-preview'' (prompt_text h st) of
        Inr t \<Rightarrow> ([], Resolved t)
      | Inl e \<Rightarrow> ([e], Resolved (Some fallbackInsight)))"
  by (simp add: getPiInsight_def Let_def)

lemma getPiInsight_without_client:
  "getAiClient h = Inl e \<Longrightarrow> getPiInsight h st = ([], Rejected e)"
  by (simp add: getPiInsight_def)

section \<open>Claims about the statistics\<close>

text \<open>
  C1. Every statistics update sets the estimate to \<open>2 * totalInCircle / totalInSquare\<close>
  when \<open>totalInSquare\<close> is positive and to 0 when it is 0: for one call of the incremental
  \<open>updateStats\<close> on any state, and for the statistics of every state that either component
  reaches (the initial and the reset statistics included). No path of the update raises:
  the functions are total and the guard replaces the division when there are no square hits.
\<close>

theorem estimate_defined:
  "(let st = stats (updateStats b s) in
      estimatedPi st =
        (if totalInSquare st > 0 then 2 * real (totalInCircle st) / real (totalInSquare st)
         else 0))
   \<and> (let st = stats (run1 cs es1) in
      estimatedPi st =
        (if totalInSquare st > 0 then 2 * real (totalInCircle st) / real (totalInSquare st)
         else 0))
   \<and> (let st = stats (run2 cs es2) in
      estimatedPi st =
        (if totalInSquare st > 0 then 2 * real (totalInCircle st) / real (totalInSquare st)
         else 0))"
proof -
  have "shaped (stats (updateStats b s))"
    by (simp add: stats_updateStats shaped_statsFor)
  moreover have "shaped (stats (run1 cs es1))" using inv1_run by blast
  moreover have "shaped (stats (run2 cs es2))" using inv2_run by blast
  ultimately show ?thesis by (simp only: Let_def shaped_estimate simp_thms)
qed

text \<open>
  C2. After any sequence of drops, ticks and resets (and, in the second component, runs of
  the statistics effect) \<open>totalInSquare \<le> totalInCircle\<close>. In the first component
  \<open>totalInCircle\<close> is the number of landed balls and \<open>totalInSquare\<close> the number of landed
  balls inside the square at every moment; in the second component the same holds as soon
  as the effect has run on the current balls.
\<close>

theorem square_hits_bounded:
  "totalInSquare (stats (run1 cs es1)) \<le> totalInCircle (stats (run1 cs es1))
   \<and> totalInCircle (stats (run1 cs es1)) = length (landedBalls (balls (run1 cs es1)))
   \<and> totalInSquare (stats (run1 cs es1)) =
       length (filter inSquare (landedBalls (balls (run1 cs es1))))
   \<and> totalInSquare (stats (run2 cs es2)) \<le> totalInCircle (stats (run2 cs es2))
   \<and> totalInCircle (stats (statsEffect2 (run2 cs es2))) =
       length (landedBalls (balls (run2 cs es2)))
   \<and> totalInSquare (stats (statsEffect2 (run2 cs es2))) =
       length (filter inSquare (landedBalls (balls (run2 cs es2))))"
proof -
  have c: "counts1 (run1 cs es1)" using inv1_run by blast
  have l: "lag2 (run2 cs es2)" using inv2_run by blast
  from c have "totalInSquare (stats (run1 cs es1)) \<le> totalInCircle (stats (run1 cs es1))"
    by (simp add: counts1_def)
  with c order2_run [of cs es2] effect_counts [OF l] show ?thesis
    by (simp add: counts1_def)
qed

section \<open>Claims about the user actions\<close>

text \<open>
  C6. \<open>resetSimulation\<close> on any state empties the balls, sets the four statistics to 0 and
  empties the history, in one action. From every reachable state of the second component
  the result is the initial state; in the first component it is the initial state up to the
  \<open>isSimulationRunning\<close> cell, which the function does not write.
\<close>

theorem reset_zero_state:
  "balls (resetSimulation s) = []
   \<and> stats (resetSimulation s) =
       \<lparr>totalInCircle = 0, totalInSquare = 0, estimatedPi = 0, error = 0\<rparr>
   \<and> history (resetSimulation s) = []
   \<and> step1 cs (run1 cs es1) Reset1 =
       init1\<lparr>isSimulationRunning := isSimulationRunning (run1 cs es1)\<rparr>
   \<and> step2 cs (run2 cs es2) Reset2 = init2"
  by (simp add: resetSimulation_def init1_def init2_def zeroStats_def)

text \<open>
  C7, as stated, fails in the first component: a drop with a count that is not positive
  appends nothing but still sets \<open>isSimulationRunning\<close>, so the state changes; on the empty
  collection no interval is installed and the cell stays set.
\<close>

theorem drop_nothing_counterexample:
  "dropBalls1 canvasSize 0 (\<lambda>i. centreDraw) init1 \<noteq> init1
   \<and> balls (dropBalls1 canvasSize 0 (\<lambda>i. centreDraw) init1) = []
   \<and> \<not> isSimulationRunning init1
   \<and> isSimulationRunning (run1 canvasSize [Drop1 0 (\<lambda>i. centreDraw)])
   \<and> isSimulationRunning
       (run1 canvasSize [Drop1 0 (\<lambda>i. centreDraw), Interval1, Interval1, Interval1])"
proof -
  have "isSimulationRunning (dropBalls1 canvasSize 0 (\<lambda>i. centreDraw) init1)"
    by (simp add: dropBalls1_def)
  moreover have "\<not> isSimulationRunning init1" by (simp add: init1_def)
  ultimately have "dropBalls1 canvasSize 0 (\<lambda>i. centreDraw) init1 \<noteq> init1" by metis
  then show ?thesis
    by (simp add: run1_def dropBalls1_def newBalls_def intervalTick1_def init1_def)
qed

text \<open>
  C7, amended. \<open>dropBalls\<close> with count \<open>N\<close> appends exactly \<open>N\<close> new balls (one call of
  \<open>generateBall\<close> each), all falling with progress 0, after the balls already there, and
  leaves the earlier balls, the statistics and the history as they are. A count that is
  not positive appends nothing and leaves balls, statistics and history as they are: the
  second component's state is unchanged, while the first component's state changes in
  \<open>isSimulationRunning\<close>, which every drop sets to true.
\<close>

theorem drop_appends:
  "balls (dropBalls1 cs count rnd s1) = balls s1 @ newBalls cs count rnd
   \<and> stats (dropBalls1 cs count rnd s1) = stats s1
   \<and> history (dropBalls1 cs count rnd s1) = history s1
   \<and> balls (dropBalls2 cs count rnd s2) = balls s2 @ newBalls cs count rnd
   \<and> stats (dropBalls2 cs count rnd s2) = stats s2
   \<and> history (dropBalls2 cs count rnd s2) = history s2
   \<and> newBalls cs count rnd = map (\<lambda>i. generateBall cs (rnd i)) [0..<nat count]
   \<and> length (newBalls cs count rnd) = nat count
   \<and> list_all (\<lambda>b. status b = Falling \<and> progress b = 0) (newBalls cs count rnd)
   \<and> (count \<le> 0 \<longrightarrow>
        dropBalls2 cs count rnd s2 = s2 \<and>
        dropBalls1 cs count rnd s1 = s1\<lparr>isSimulationRunning := True\<rparr>)"
  by (simp add: dropBalls1_def dropBalls2_def newBalls_def list_all_iff)

theorem drop_appends_witness:
  "(- 3 :: int) \<le> 0
   \<and> dropBalls2 canvasSize (- 3) (\<lambda>i. centreDraw) init2 = init2
   \<and> dropBalls1 canvasSize (- 3) (\<lambda>i. centreDraw) init1 = init1\<lparr>isSimulationRunning := True\<rparr>
   \<and> length (balls (dropBalls2 canvasSize 2 (\<lambda>i. centreDraw) init2)) = 2
   \<and> length (balls (dropBalls1 canvasSize 2 (\<lambda>i. centreDraw) init1)) = 2"
proof -
  have a: "(- 3 :: int) \<le> 0" by simp
  from a
    drop_appends [where cs = canvasSize and count = "- 3" and rnd = "\<lambda>i. centreDraw"
      and ?s1.0 = init1 and ?s2.0 = init2]
    drop_appends [where cs = canvasSize and count = 2 and rnd = "\<lambda>i. centreDraw"
      and ?s1.0 = init1 and ?s2.0 = init2]
  show ?thesis by (simp add: init1_def init2_def)
qed

section \<open>Claims about the history series\<close>

text \<open>
  C3, as stated, fails in the first component: its \<open>updateStats\<close> appends a point at every
  tenth landed ball and never evicts one. After the buttons "Drop 500", "Drop 500" and
  "Drop 100" and twenty ticks, 1100 balls have landed and the history holds 110 points.
\<close>

theorem history_unbounded_counterexample:
  "\<not> length (history (run1 canvasSize
        (Drop1 500 (\<lambda>i. centreDraw) # Drop1 500 (\<lambda>i. centreDraw) #
         Drop1 100 (\<lambda>i. centreDraw) # replicate 20 Interval1))) \<le> 100"
proof -
  let ?r = "\<lambda>i::nat. centreDraw"
  let ?s = "run1 canvasSize (Drop1 500 ?r # Drop1 500 ?r # Drop1 100 ?r # replicate 20 Interval1)"
  have b: "balls ?s =
      map (afterTicks1 20) (newBalls canvasSize 500 ?r) @
      map (afterTicks1 20) (newBalls canvasSize 500 ?r) @
      map (afterTicks1 20) (newBalls canvasSize 100 ?r)"
    by (simp add: run1_def balls_ticks1 dropBalls1_def init1_def)
  have "counts1 ?s" and h: "hist1 ?s" using inv1_run by blast+
  then have "totalInCircle (stats ?s) = 1100"
    by (simp add: counts1_def b landed_after_20 length_newBalls)
  with hist1_length [OF h] show ?thesis by simp
qed

text \<open>
  C3, amended. In every reachable state of the second component the indices of the history
  are strictly increasing (so pairwise distinct and non-decreasing) and the history holds at
  most 100 points; a new point pushed onto a full history evicts the oldest one, and one
  pushed onto a shorter history evicts nothing. In every reachable state of the first
  component the indices are strictly increasing as well, but nothing is evicted: the
  history holds one point for every tenth landed ball.
\<close>

theorem history_series:
  "sorted_wrt (<) (map index (history (run2 cs es2)))
   \<and> distinct (map index (history (run2 cs es2)))
   \<and> sorted (map index (history (run2 cs es2)))
   \<and> length (history (run2 cs es2)) \<le> 100
   \<and> (length hFull = 100 \<and> index (last hFull) \<noteq> n \<longrightarrow>
        pushHistory n v hFull = tl hFull @ [\<lparr>index = n, value_pt = v\<rparr>])
   \<and> (length hShort < 100 \<and> (hShort = [] \<or> index (last hShort) \<noteq> n) \<longrightarrow>
        pushHistory n v hShort = hShort @ [\<lparr>index = n, value_pt = v\<rparr>])
   \<and> sorted_wrt (<) (map index (history (run1 cs es1)))
   \<and> distinct (map index (history (run1 cs es1)))
   \<and> sorted (map index (history (run1 cs es1)))
   \<and> length (history (run1 cs es1)) = totalInCircle (stats (run1 cs es1)) div 10"
proof -
  have h2: "hist2 (run2 cs es2)" using inv2_run by blast
  then have s2: "sorted_wrt (<) (map index (history (run2 cs es2)))"
    and l2: "length (history (run2 cs es2)) \<le> 100"
    by (simp_all add: hist2_def)
  have h1: "hist1 (run1 cs es1)" using inv1_run by blast
  note s1 = hist1_sorted [OF h1] and l1 = hist1_length [OF h1]
  from s1 s2 have "distinct (map index (history (run2 cs es2)))"
    "sorted (map index (history (run2 cs es2)))"
    "distinct (map index (history (run1 cs es1)))"
    "sorted (map index (history (run1 cs es1)))"
    by (simp_all add: strict_sorted_iff)
  with s1 s2 l1 l2 show ?thesis
    using pushHistory_full [of hFull n v] pushHistory_short [of hShort n v] by blast
qed

theorem history_series_witness:
  "length (map (\<lambda>k. \<lparr>index = 10 * Suc k, value_pt = 3\<rparr>) [0..<100]) = 100
   \<and> index (last (map (\<lambda>k. \<lparr>index = 10 * Suc k, value_pt = 3\<rparr>) [0..<100])) \<noteq> 1010
   \<and> pushHistory 1010 3 (map (\<lambda>k. \<lparr>index = 10 * Suc k, value_pt = 3\<rparr>) [0..<100]) =
       tl (map (\<lambda>k. \<lparr>index = 10 * Suc k, value_pt = 3\<rparr>) [0..<100])
         @ [\<lparr>index = 1010, value_pt = 3\<rparr>]
   \<and> length [\<lparr>index = 1, value_pt = 2\<rparr>] < 100
   \<and> index (last [\<lparr>index = 1, value_pt = 2\<rparr>]) \<noteq> 10
   \<and> pushHistory 10 3 [\<lparr>index = 1, value_pt = 2\<rparr>] =
       [\<lparr>index = 1, value_pt = 2\<rparr>, \<lparr>index = 10, value_pt = 3\<rparr>]
   \<and> length (history (run2 canvasSize [])) \<le> 100"
proof -
  let ?h = "map (\<lambda>k. \<lparr>index = 10 * Suc k, value_pt = (3::real)\<rparr>) [0..<100]"
  have a: "length ?h = 100" by simp
  have "last ?h = \<lparr>index = 10 * Suc 99, value_pt = 3\<rparr>"
    by (simp add: last_map del: upt_Suc)
  then have b: "index (last ?h) \<noteq> 1010" by simp
  have c: "length [\<lparr>index = 1, value_pt = (2::real)\<rparr>] < 100" by simp
  have d: "index (last [\<lparr>index = 1, value_pt = (2::real)\<rparr>]) \<noteq> 10" by simp
  from a b c d
    history_series [of canvasSize "[]" ?h 1010 3 "[\<lparr>index = 1, value_pt = 2\<rparr>]" "[]"]
    history_series [of canvasSize "[]" ?h 10 3 "[\<lparr>index = 1, value_pt = 2\<rparr>]" "[]"]
  show ?thesis by simp
qed

section \<open>Claims about the animation\<close>

text \<open>
  C8. A sample's progress never decreases from one tick to the next and never exceeds 1.
  The tick where \<open>progress + increment\<close> reaches or exceeds 1 sets progress to exactly 1
  and the status to landed; this happens exactly once in a sample's life (with exact
  arithmetic, on the 20th tick of the first component and the 13th of the second). A tick
  returns a landed sample as it is, and changes nothing but progress and status of a
  falling one. Every tick applies this step to each ball of the collection.
\<close>

theorem sample_lifecycle:
  "afterTicks1 k (generateBall cs d) =
     (if k < 20 then (generateBall cs d)\<lparr>progress := real k * 0.05\<rparr>
      else (generateBall cs d)\<lparr>progress := 1, status := Landed\<rparr>)
   \<and> progress (afterTicks1 k (generateBall cs d))
       \<le> progress (afterTicks1 (Suc k) (generateBall cs d))
   \<and> progress (afterTicks1 k (generateBall cs d)) \<le> 1
   \<and> (\<exists>!j. status (afterTicks1 j (generateBall cs d)) = Falling \<and>
             status (afterTicks1 (Suc j) (generateBall cs d)) = Landed)
   \<and> afterTicks2 k (generateBall cs d) =
     (if k < 13 then (generateBall cs d)\<lparr>progress := real k * 0.08\<rparr>
      else (generateBall cs d)\<lparr>progress := 1, status := Landed\<rparr>)
   \<and> progress (afterTicks2 k (generateBall cs d))
       \<le> progress (afterTicks2 (Suc k) (generateBall cs d))
   \<and> progress (afterTicks2 k (generateBall cs d)) \<le> 1
   \<and> (\<exists>!j. status (afterTicks2 j (generateBall cs d)) = Falling \<and>
             status (afterTicks2 (Suc j) (generateBall cs d)) = Landed)
   \<and> (status bL = Landed \<longrightarrow> advance1 bL = bL \<and> advance2 bL = bL)
   \<and> (status bF = Falling \<longrightarrow>
        advance1 bF = (if progress bF + 0.05 \<ge> 1 then bF\<lparr>progress := 1, status := Landed\<rparr>
                       else bF\<lparr>progress := progress bF + 0.05\<rparr>) \<and>
        advance2 bF = (if progress bF + 0.08 \<ge> 1 then bF\<lparr>progress := 1, status := Landed\<rparr>
                       else bF\<lparr>progress := progress bF + 0.08\<rparr>))
   \<and> (progress bP \<le> 1 \<longrightarrow>
        progress bP \<le> progress (advance1 bP) \<and> progress (advance1 bP) \<le> 1 \<and>
        progress bP \<le> progress (advance2 bP) \<and> progress (advance2 bP) \<le> 1)
   \<and> balls (intervalTick1 s1) = map advance1 (balls s1)
   \<and> balls (animate2 s2) = map advance2 (balls s2)"
proof -
  let ?b = "generateBall cs d"
  have c1: "\<And>j. afterTicks1 j ?b =
      (if j < 20 then ?b\<lparr>progress := real j * 0.05\<rparr> else ?b\<lparr>progress := 1, status := Landed\<rparr>)"
    by (rule afterTicks1_closed) simp_all
  have c2: "\<And>j. afterTicks2 j ?b =
      (if j < 13 then ?b\<lparr>progress := real j * 0.08\<rparr> else ?b\<lparr>progress := 1, status := Landed\<rparr>)"
    by (rule afterTicks2_closed) simp_all
  have m1: "progress (afterTicks1 k ?b) \<le> progress (afterTicks1 (Suc k) ?b)"
    unfolding c1 by simp
  have m2: "progress (afterTicks2 k ?b) \<le> progress (afterTicks2 (Suc k) ?b)"
    unfolding c2 by simp
  have u1: "progress (afterTicks1 k ?b) \<le> 1" unfolding c1 by simp
  have u2: "progress (afterTicks2 k ?b) \<le> 1" unfolding c2 by simp
  have "\<And>j. status (afterTicks1 j ?b) = (if j < 20 then Falling else Landed)"
    unfolding c1 by simp
  then have o1: "\<exists>!j. status (afterTicks1 j ?b) = Falling \<and> status (afterTicks1 (Suc j) ?b) = Landed"
    by (rule transition_once) simp
  have "\<And>j. status (afterTicks2 j ?b) = (if j < 13 then Falling else Landed)"
    unfolding c2 by simp
  then have o2: "\<exists>!j. status (afterTicks2 j ?b) = Falling \<and> status (afterTicks2 (Suc j) ?b) = Landed"
    by (rule transition_once) simp
  have l: "status bL = Landed \<longrightarrow> advance1 bL = bL \<and> advance2 bL = bL"
    by (simp add: advance1_landed advance2_landed)
  have f: "status bF = Falling \<longrightarrow>
        advance1 bF = (if progress bF + 0.05 \<ge> 1 then bF\<lparr>progress := 1, status := Landed\<rparr>
                       else bF\<lparr>progress := progress bF + 0.05\<rparr>) \<and>
        advance2 bF = (if progress bF + 0.08 \<ge> 1 then bF\<lparr>progress := 1, status := Landed\<rparr>
                       else bF\<lparr>progress := progress bF + 0.08\<rparr>)"
    by (simp add: advance1_def advance2_def Let_def)
  have p: "progress bP \<le> 1 \<longrightarrow>
        progress bP \<le> progress (advance1 bP) \<and> progress (advance1 bP) \<le> 1 \<and>
        progress bP \<le> progress (advance2 bP) \<and> progress (advance2 bP) \<le> 1"
    by (simp add: advance1_def advance2_def Let_def)
  show ?thesis
    using c1 [of k] c2 [of k] m1 m2 u1 u2 o1 o2 l f p
      intervalTick1_sel(1) [of s1] animate2_sel(1) [of s2]
    by (intro conjI)
qed

theorem sample_lifecycle_witness:
  "status ((generateBall canvasSize centreDraw)\<lparr>progress := 1, status := Landed\<rparr>) = Landed
   \<and> advance1 ((generateBall canvasSize centreDraw)\<lparr>progress := 1, status := Landed\<rparr>) =
       (generateBall canvasSize centreDraw)\<lparr>progress := 1, status := Landed\<rparr>
   \<and> advance2 ((generateBall canvasSize centreDraw)\<lparr>progress := 1, status := Landed\<rparr>) =
       (generateBall canvasSize centreDraw)\<lparr>progress := 1, status := Landed\<rparr>
   \<and> status (generateBall canvasSize centreDraw) = Falling
   \<and> progress (advance1 (generateBall canvasSize centreDraw)) = 0.05
   \<and> progress (advance2 (generateBall canvasSize centreDraw)) = 0.08
   \<and> progress (generateBall canvasSize centreDraw) \<le> 1
   \<and> status (afterTicks1 19 (generateBall canvasSize centreDraw)) = Falling
   \<and> status (afterTicks1 20 (generateBall canvasSize centreDraw)) = Landed
   \<and> progress (afterTicks1 20 (generateBall canvasSize centreDraw)) = 1
   \<and> status (afterTicks2 12 (generateBall canvasSize centreDraw)) = Falling
   \<and> status (afterTicks2 13 (generateBall canvasSize centreDraw)) = Landed"
proof -
  let ?b = "generateBall canvasSize centreDraw"
  let ?l = "?b\<lparr>progress := 1, status := Landed\<rparr>"
  have a: "status ?l = Landed" by simp
  have b: "status ?b = Falling" by simp
  have c: "progress ?b \<le> 1" by simp
  note t = sample_lifecycle [of _ canvasSize centreDraw ?l ?b ?b init1 init2]
  from a b c t [of 0] t [of 19] t [of 20] t [of 12] t [of 13]
  show ?thesis by simp
qed

section \<open>Claims about the sampler\<close>

text \<open>
  C5. The membership flag of a generated sample is true exactly when each landing coordinate
  is within \<open>radius * sqrt 2 / 2\<close> (half the side of the inscribed square) of the centre.
  A sample whose radial draw is 0 lands on the centre and is inside the square. When a
  reachable state holds exactly one landed sample and that sample is inside the square, the
  statistics are \<open>totalInCircle = totalInSquare = 1\<close> and \<open>estimatedPi = 2\<close> (in the
  second component, once the statistics effect has run).
\<close>

theorem membership_test:
  "inSquare (generateBall cs d) =
     (\<bar>targetX (generateBall cs d) - centerX cs\<bar> \<le> radius cs * sqrt 2 / 2 \<and>
      \<bar>targetY (generateBall cs d) - centerY cs\<bar> \<le> radius cs * sqrt 2 / 2)
   \<and> (0 \<le> radius cs \<and> rand_radial d0 = 0 \<longrightarrow>
        targetX (generateBall cs d0) = centerX cs \<and>
        targetY (generateBall cs d0) = centerY cs \<and>
        inSquare (generateBall cs d0))
   \<and> (landedBalls (balls (run1 cs es1)) = [b1] \<and> inSquare b1 \<longrightarrow>
        stats (run1 cs es1) =
          \<lparr>totalInCircle = 1, totalInSquare = 1, estimatedPi = 2, error = \<bar>pi - 2\<bar> / pi\<rparr>)
   \<and> (landedBalls (balls (run2 cs es2)) = [b2] \<and> inSquare b2 \<longrightarrow>
        stats (statsEffect2 (run2 cs es2)) =
          \<lparr>totalInCircle = 1, totalInSquare = 1, estimatedPi = 2, error = \<bar>pi - 2\<bar> / pi\<rparr>)"
proof (intro conjI impI)
  show "inSquare (generateBall cs d) =
     (\<bar>targetX (generateBall cs d) - centerX cs\<bar> \<le> radius cs * sqrt 2 / 2 \<and>
      \<bar>targetY (generateBall cs d) - centerY cs\<bar> \<le> radius cs * sqrt 2 / 2)"
    unfolding generateBall_inSquare squareSize_def by (rule within_half)
next
  assume a: "0 \<le> radius cs \<and> rand_radial d0 = 0"
  then show "targetX (generateBall cs d0) = centerX cs"
    and "targetY (generateBall cs d0) = centerY cs"
    by (simp_all add: generateBall_target)
  with a show "inSquare (generateBall cs d0)"
    by (simp add: generateBall_inSquare squareSize_def)
next
  assume a: "landedBalls (balls (run1 cs es1)) = [b1] \<and> inSquare b1"
  have "counts1 (run1 cs es1)" and sh: "shaped (stats (run1 cs es1))"
    using inv1_run by blast+
  with a have "totalInCircle (stats (run1 cs es1)) = 1" "totalInSquare (stats (run1 cs es1)) = 1"
    by (simp_all add: counts1_def)
  with sh have "stats (run1 cs es1) = statsFor 1 1" by (simp add: shaped_counts)
  then show "stats (run1 cs es1) =
      \<lparr>totalInCircle = 1, totalInSquare = 1, estimatedPi = 2, error = \<bar>pi - 2\<bar> / pi\<rparr>"
    by (simp only: statsFor_one)
next
  assume a: "landedBalls (balls (run2 cs es2)) = [b2] \<and> inSquare b2"
  have l: "lag2 (run2 cs es2)" and "shaped (stats (run2 cs es2))"
    using inv2_run by blast+
  then have sh: "shaped (stats (statsEffect2 (run2 cs es2)))"
    using shaped_step2 [of "run2 cs es2" cs Effect2] by simp
  from a effect_counts [OF l]
  have "totalInCircle (stats (statsEffect2 (run2 cs es2))) = 1"
    "totalInSquare (stats (statsEffect2 (run2 cs es2))) = 1"
    by simp_all
  with sh have "stats (statsEffect2 (run2 cs es2)) = statsFor 1 1" by (simp add: shaped_counts)
  then show "stats (statsEffect2 (run2 cs es2)) =
      \<lparr>totalInCircle = 1, totalInSquare = 1, estimatedPi = 2, error = \<bar>pi - 2\<bar> / pi\<rparr>"
    by (simp only: statsFor_one)
qed

theorem membership_test_witness:
  "0 \<le> radius canvasSize
   \<and> rand_radial centreDraw = 0
   \<and> targetX (generateBall canvasSize centreDraw) = 300
   \<and> targetY (generateBall canvasSize centreDraw) = 300
   \<and> inSquare (generateBall canvasSize centreDraw)
   \<and> landedBalls (balls (run1 canvasSize (Drop1 1 (\<lambda>i. centreDraw) # replicate 20 Interval1))) =
       [(generateBall canvasSize centreDraw)\<lparr>progress := 1, status := Landed\<rparr>]
   \<and> inSquare ((generateBall canvasSize centreDraw)\<lparr>progress := 1, status := Landed\<rparr>)
   \<and> stats (run1 canvasSize (Drop1 1 (\<lambda>i. centreDraw) # replicate 20 Interval1)) =
       \<lparr>totalInCircle = 1, totalInSquare = 1, estimatedPi = 2, error = \<bar>pi - 2\<bar> / pi\<rparr>
   \<and> landedBalls (balls (run2 canvasSize (Drop2 1 (\<lambda>i. centreDraw) # replicate 13 Frame2))) =
       [(generateBall canvasSize centreDraw)\<lparr>progress := 1, status := Landed\<rparr>]
   \<and> stats (statsEffect2 (run2 canvasSize (Drop2 1 (\<lambda>i. centreDraw) # replicate 13 Frame2))) =
       \<lparr>totalInCircle = 1, totalInSquare = 1, estimatedPi = 2, error = \<bar>pi - 2\<bar> / pi\<rparr>"
proof -
  let ?l = "(generateBall canvasSize centreDraw)\<lparr>progress := 1, status := Landed\<rparr>"
  let ?es1 = "Drop1 1 (\<lambda>i. centreDraw) # replicate 20 Interval1"
  let ?es2 = "Drop2 1 (\<lambda>i. centreDraw) # replicate 13 Frame2"
  have a: "0 \<le> radius canvasSize" by (simp add: radius_def canvasSize_def)
  have b: "rand_radial centreDraw = 0" by (simp add: centreDraw_def)
  have c: "landedBalls (balls (run1 canvasSize ?es1)) = [?l]"
    unfolding balls_one_landed1 by (simp add: landedBalls_def)
  have d: "landedBalls (balls (run2 canvasSize ?es2)) = [?l]"
    unfolding balls_one_landed2 by (simp add: landedBalls_def)
  have e: "inSquare ?l" by (simp add: centre_ball)
  from a b c d e centre_ball
    membership_test [where cs = canvasSize and ?d0.0 = centreDraw and ?es1.0 = ?es1
      and ?es2.0 = ?es2 and ?b1.0 = ?l and ?b2.0 = ?l]
  show ?thesis by simp
qed

section \<open>Claims relating the two statistics updates\<close>

text \<open>
  C9. The statistics that the effect of the second component recomputes from the landed
  balls are the statistics that the incremental \<open>updateStats\<close> of the first component
  reaches from zero when it is called once for each of the same landed balls, in any order:
  the same \<open>totalInCircle\<close>, \<open>totalInSquare\<close>, \<open>estimatedPi\<close> and \<open>error\<close>. Hence whenever
  runs of the two components have landed as many balls, and as many inside the square, the
  first component's statistics are those of the second after its effect has run.
\<close>

theorem incremental_matches_recomputation:
  "(totalInCircle (stats s2) < length (landedBalls (balls s2)) \<and>
    stats s1 = zeroStats \<and>
    length ls = length (landedBalls (balls s2)) \<and>
    length (filter inSquare ls) = length (filter inSquare (landedBalls (balls s2))) \<longrightarrow>
      stats (statsEffect2 s2) = stats (foldl (\<lambda>acc b. updateStats b acc) s1 ls))
   \<and> (length (landedBalls (balls (run2 cs es2))) = length (landedBalls (balls (run1 cs es1))) \<and>
       length (filter inSquare (landedBalls (balls (run2 cs es2)))) =
         length (filter inSquare (landedBalls (balls (run1 cs es1)))) \<longrightarrow>
      stats (statsEffect2 (run2 cs es2)) = stats (run1 cs es1))"
proof (intro conjI impI)
  assume a: "totalInCircle (stats s2) < length (landedBalls (balls s2)) \<and>
    stats s1 = zeroStats \<and>
    length ls = length (landedBalls (balls s2)) \<and>
    length (filter inSquare ls) = length (filter inSquare (landedBalls (balls s2)))"
  then have "0 < length ls" by linarith
  then have ne: "ls \<noteq> []" by simp
  from a have z: "totalInCircle (stats s1) = 0" "totalInSquare (stats s1) = 0"
    by (simp_all add: zeroStats_def)
  from a have "stats (statsEffect2 s2) =
      statsFor (length (landedBalls (balls s2))) (length (filter inSquare (landedBalls (balls s2))))"
    by (simp add: statsEffect2_fire)
  also from a z have "\<dots> = stats (foldl (\<lambda>acc b. updateStats b acc) s1 ls)"
    by (simp add: stats_incremental [OF ne])
  finally show "stats (statsEffect2 s2) = stats (foldl (\<lambda>acc b. updateStats b acc) s1 ls)" .
next
  let ?s1 = "run1 cs es1" and ?s2 = "run2 cs es2"
  assume a: "length (landedBalls (balls ?s2)) = length (landedBalls (balls ?s1)) \<and>
       length (filter inSquare (landedBalls (balls ?s2))) =
         length (filter inSquare (landedBalls (balls ?s1)))"
  have c1: "counts1 ?s1" and sh1: "shaped (stats ?s1)" using inv1_run by blast+
  have l: "lag2 ?s2" and "shaped (stats ?s2)" using inv2_run by blast+
  then have sh2: "shaped (stats (statsEffect2 ?s2))"
    using shaped_step2 [of ?s2 cs Effect2] by simp
  from a c1 effect_counts [OF l]
  have t: "totalInCircle (stats (statsEffect2 ?s2)) = totalInCircle (stats ?s1)"
    and q: "totalInSquare (stats (statsEffect2 ?s2)) = totalInSquare (stats ?s1)"
    by (simp_all add: counts1_def)
  show "stats (statsEffect2 ?s2) = stats ?s1"
  proof (cases "totalInCircle (stats ?s1) = 0")
    case True
    with sh1 have "stats ?s1 = zeroStats" by (simp add: shaped_def)
    moreover from True t sh2 have "stats (statsEffect2 ?s2) = zeroStats"
      by (simp add: shaped_def)
    ultimately show ?thesis by simp
  next
    case False
    then have pos: "0 < totalInCircle (stats ?s1)" by simp
    from sh1 pos have "stats ?s1 = statsFor (totalInCircle (stats ?s1)) (totalInSquare (stats ?s1))"
      by (simp add: shaped_counts)
    moreover from sh2 t q pos
    have "stats (statsEffect2 ?s2) = statsFor (totalInCircle (stats ?s1)) (totalInSquare (stats ?s1))"
      by (simp add: shaped_counts)
    ultimately show ?thesis by simp
  qed
qed

theorem incremental_matches_recomputation_witness:
  "totalInCircle (stats (init2\<lparr>balls := [(generateBall canvasSize centreDraw)\<lparr>status := Landed\<rparr>]\<rparr>))
     < length (landedBalls (balls (init2\<lparr>balls := [(generateBall canvasSize centreDraw)\<lparr>status := Landed\<rparr>]\<rparr>)))
   \<and> stats init1 = zeroStats
   \<and> stats (statsEffect2 (init2\<lparr>balls := [(generateBall canvasSize centreDraw)\<lparr>status := Landed\<rparr>]\<rparr>)) =
       stats (foldl (\<lambda>acc b. updateStats b acc) init1
                [(generateBall canvasSize centreDraw)\<lparr>status := Landed\<rparr>])
   \<and> length (landedBalls (balls (run2 canvasSize (Drop2 1 (\<lambda>i. centreDraw) # replicate 13 Frame2))))
       = length (landedBalls (balls (run1 canvasSize (Drop1 1 (\<lambda>i. centreDraw) # replicate 20 Interval1))))
   \<and> stats (statsEffect2 (run2 canvasSize (Drop2 1 (\<lambda>i. centreDraw) # replicate 13 Frame2))) =
       stats (run1 canvasSize (Drop1 1 (\<lambda>i. centreDraw) # replicate 20 Interval1))"
proof -
  let ?l = "(generateBall canvasSize centreDraw)\<lparr>status := Landed\<rparr>"
  let ?s2 = "init2\<lparr>balls := [?l]\<rparr>"
  let ?es1 = "Drop1 1 (\<lambda>i. centreDraw) # replicate 20 Interval1"
  let ?es2 = "Drop2 1 (\<lambda>i. centreDraw) # replicate 13 Frame2"
  have a: "totalInCircle (stats ?s2) < length (landedBalls (balls ?s2))"
    by (simp add: init2_def zeroStats_def landedBalls_def)
  have b: "stats init1 = zeroStats" by (simp add: init1_def)
  have c: "length [?l] = length (landedBalls (balls ?s2))"
    "length (filter inSquare [?l]) = length (filter inSquare (landedBalls (balls ?s2)))"
    by (simp_all add: landedBalls_def)
  have d: "length (landedBalls (balls (run2 canvasSize ?es2))) =
           length (landedBalls (balls (run1 canvasSize ?es1)))"
    "length (filter inSquare (landedBalls (balls (run2 canvasSize ?es2)))) =
     length (filter inSquare (landedBalls (balls (run1 canvasSize ?es1))))"
    unfolding balls_one_landed1 balls_one_landed2 by simp_all
  from a b c d
    incremental_matches_recomputation [where ?s1.0 = init1 and ?s2.0 = ?s2 and ls = "[?l]"
      and cs = canvasSize and ?es1.0 = ?es1 and ?es2.0 = ?es2]
  show ?thesis by simp
qed

section \<open>Claims about the commentary service\<close>

text \<open>
  C10 says that \<open>getPiInsight\<close> settles with a string on every path, the fallback string on
  any failure, a missing credential included. The function does so once it holds a client;
  but the client is constructed outside the \<open>try\<close> block, so an exception of the
  constructor rejects the promise. The theorem evaluates the function in a browser without
  a key.
\<close>

theorem insight_rejects_without_key:
  "getPiInsight keylessBrowser
     \<lparr>insight_total = 0, insight_square = 0, insight_estimate = 0, insight_error = 0\<rparr> =
   ([], Rejected (JsError ''An API Key must be set when running in a browser''))"
  by (simp add: getPiInsight_def getAiClient_def keylessBrowser_def)

end
